theory Spec2Isabelle
  imports Main "HOL-Library.Word"
begin

section \<open>The LoRaWAN telemetry example: \<^verbatim>\<open>src/main.cpp\<close>\<close>

text \<open>
  The program samples a temperature sensor, hands the encoded reading to the LoRaWAN stack
  and re-arms itself through the event queue. Everything it calls (the stack, the event
  queue, the sensor, the payload encoder) is library code outside the repository; the
  model takes what those calls return as inputs (the record \<open>world\<close>) and keeps what
  the program does to the event queue and to standard output in an explicit \<open>state\<close>.
\<close>

subsection \<open>Types of the library interface\<close>

text \<open>
  \<^verbatim>\<open>lorawan_status_t\<close>: \<^verbatim>\<open>main\<close> compares against two of its constants only; every other
  value is kept with its integer code.
\<close>

datatype lorawan_status_t =
    LORAWAN_STATUS_OK
  | LORAWAN_STATUS_CONNECT_IN_PROGRESS
  | LORAWAN_STATUS_OTHER int

text \<open>
  \<^verbatim>\<open>lorawan_event_t\<close>: the twelve labels of the \<^verbatim>\<open>switch\<close> in \<^verbatim>\<open>lora_event_handler\<close>, and
  \<open>OTHER_EVENT\<close> for any value of the enumeration type that is none of them (the
  \<^verbatim>\<open>default\<close> label).
\<close>

datatype lorawan_event_t =
    CONNECTED
  | DISCONNECTED
  | TX_DONE
  | TX_TIMEOUT
  | TX_ERROR
  | TX_CRYPTO_ERROR
  | TX_SCHEDULING_ERROR
  | RX_DONE
  | RX_TIMEOUT
  | RX_ERROR
  | JOIN_FAILURE
  | UPLINK_REQUIRED
  | OTHER_EVENT int

text \<open>The only function the program ever posts to the event queue.\<close>

datatype callback = Send_message

text \<open>
  What ends a callback abnormally: a failed \<^verbatim>\<open>MBED_ASSERT\<close>, or a read past the end of
  \<^verbatim>\<open>rx_buffer\<close> (undefined behaviour in C++, made a value here).
\<close>

datatype fault = Assertion_failed | Buffer_overrun

text \<open>
  One constructor for each \<^verbatim>\<open>printf\<close> of the source, carrying the values it formats.
  The \<^verbatim>\<open>float\<close> reading is carried as its 32-bit pattern; no arithmetic is done on it.
\<close>

datatype line =
    LoRa_initialization_failed
  | Stack_initialized
  | Set_confirmed_msg_retries_failed
  | Disable_adaptive_datarate_failed
  | ADR_disabled
  | Connection_in_progress
  | Connection_error lorawan_status_t
  | Temperature_is "32 word"
  | Duty_cycle_violation
  | Send_error_code int
  | Bytes_scheduled int
  | Receive_error_code int
  | RX_Data int
  | RX_byte "8 word"
  | RX_newline
  | Connection_successful
  | Disconnected_successfully
  | Message_sent
  | Transmission_error lorawan_event_t
  | Received_message
  | Reception_error lorawan_event_t
  | OTAA_failed
  | Uplink_required

text \<open>
  The environment. \<open>WOULD_BLOCK\<close> is the value of the library constant
  \<^verbatim>\<open>LORAWAN_STATUS_WOULD_BLOCK\<close>, whose header is not part of the repository. The
  \<open>_ret\<close> fields are what the library calls of \<^verbatim>\<open>main\<close> return. \<open>get_temperature k\<close>
  is the reading taken by the \<open>k\<close>-th execution of \<^verbatim>\<open>send_message\<close> (from 0),
  \<open>send_ret k\<close> what the \<open>k\<close>-th call of \<^verbatim>\<open>lorawan.send\<close> returns (an \<^verbatim>\<open>int16_t\<close>), and
  \<open>receive_ret k len\<close> what the \<open>k\<close>-th call of \<^verbatim>\<open>lorawan.receive\<close> returns when it is
  given a buffer of \<open>len\<close> bytes, together with the bytes it stores into that buffer.
\<close>

record world =
  WOULD_BLOCK :: int
  initialize_ret :: lorawan_status_t
  add_app_callbacks_ret :: lorawan_status_t
  set_confirmed_msg_retries_ret :: lorawan_status_t
  disable_adaptive_datarate_ret :: lorawan_status_t
  connect_ret :: lorawan_status_t
  get_temperature :: "nat \<Rightarrow> 32 word"
  send_ret :: "nat \<Rightarrow> 16 word"
  receive_ret :: "nat \<Rightarrow> nat \<Rightarrow> 16 word \<times> 8 word list"

text \<open>
  The program's state: the event queue \<^verbatim>\<open>ev_queue\<close> (its clock in milliseconds, the
  callbacks posted and not yet run with the time each is due, in posting order, and
  the break request), the lines printed so far, and how many times \<^verbatim>\<open>lorawan.send\<close> and
  \<^verbatim>\<open>lorawan.receive\<close> have been called.
\<close>

record state =
  tick :: nat
  pending :: "(nat \<times> callback) list"
  break_requested :: bool
  out :: "line list"
  sends :: nat
  receives :: nat

subsection \<open>Library calls that act on the state\<close>

definition printf :: "line \<Rightarrow> state \<Rightarrow> state" where
  "printf l st = st\<lparr>out := out st @ [l]\<rparr>"

text \<open>
  Modelled from the spec: \<^verbatim>\<open>EventQueue::call_in\<close> is library code that is not under
  \<^verbatim>\<open>src/\<close>. Section 4.2: \<^verbatim>\<open>schedule_after(duration, callback)\<close> registers a one-shot
  callback and returns a handle usable to cancel. The source discards the handle at every
  call, so the model returns the state only.
\<close>

definition call_in :: "nat \<Rightarrow> callback \<Rightarrow> state \<Rightarrow> state" where
  "call_in ms cb st = st\<lparr>pending := pending st @ [(tick st + ms, cb)]\<rparr>"

text \<open>
  Modelled from the spec: \<^verbatim>\<open>EventQueue::break_dispatch\<close> is library code that is not under
  \<^verbatim>\<open>src/\<close>. Section 4.2: \<^verbatim>\<open>stop()\<close> causes \<^verbatim>\<open>dispatch_forever\<close> to return once the
  currently running callback completes; the request is recorded here and acted on by
  \<open>dispatch_forever\<close> below.
\<close>

definition break_dispatch :: "state \<Rightarrow> state" where
  "break_dispatch st = st\<lparr>break_requested := True\<rparr>"

text \<open>
  Modelled from the spec: the macro \<^verbatim>\<open>MBED_ASSERT\<close> is not defined under \<^verbatim>\<open>src/\<close>.
  Section 7 calls it a fatal assertion: the program is aborted when the asserted
  expression is false and continues when it is true.
\<close>

definition MBED_ASSERT :: "bool \<Rightarrow> state \<Rightarrow> fault + state" where
  "MBED_ASSERT expr st = (if expr then Inr st else Inl Assertion_failed)"

text \<open>
  The truth value of a string literal used as a condition: the array decays to a pointer
  to its first character, which is never null, and a non-null pointer converts to
  \<^verbatim>\<open>true\<close>, whatever the characters are.
\<close>

definition literal_as_condition :: "string \<Rightarrow> bool" where
  "literal_as_condition s = True"

subsection \<open>\<^verbatim>\<open>send_message\<close>\<close>

definition TX_INTERVAL :: nat where
  "TX_INTERVAL = 10000"

text \<open>
  The build without \<^verbatim>\<open>TARGET_SIMULATOR\<close>: the reading comes from \<^verbatim>\<open>hum_temp\<close> and is
  printed. The payload encoder and the stack are external; what matters to the program
  is the \<^verbatim>\<open>int16_t\<close> that \<^verbatim>\<open>lorawan.send\<close> returns, compared as a signed value.
\<close>

definition send_message :: "world \<Rightarrow> state \<Rightarrow> state" where
  "send_message w st0 =
    (let temperature = get_temperature w (sends st0);
         st1 = printf (Temperature_is temperature) st0;
         retcode = send_ret w (sends st1);
         st2 = st1\<lparr>sends := sends st1 + 1\<rparr>
     in if sint retcode < 0 then
          (let st3 = (if sint retcode = WOULD_BLOCK w
                      then printf Duty_cycle_violation st2
                      else printf (Send_error_code (sint retcode)) st2)
           in if sint retcode = WOULD_BLOCK w
              then call_in 3000 Send_message st3
              else call_in TX_INTERVAL Send_message st3)
        else printf (Bytes_scheduled (sint retcode)) (call_in TX_INTERVAL Send_message st2))"

subsection \<open>\<^verbatim>\<open>receive_message\<close>\<close>

text \<open>
  \<^verbatim>\<open>uint8_t rx_buffer[50] = { 0 }\<close> after \<^verbatim>\<open>lorawan.receive\<close> was given it with
  \<^verbatim>\<open>sizeof(rx_buffer)\<close>, that is 50, as its length: the library stores at most 50 bytes,
  the rest stays zero.
\<close>

definition rx_buffer_after :: "8 word list \<Rightarrow> 8 word list" where
  "rx_buffer_after stored = take 50 stored @ replicate (50 - length stored) 0"

text \<open>
  The loop \<^verbatim>\<open>for (uint8_t i = 0; i < retcode; i++) printf("%02x ", rx_buffer[i])\<close>. Both
  operands of \<^verbatim>\<open><\<close> are promoted to \<^verbatim>\<open>int\<close>, so the index is read unsigned and the return
  code signed. Reading \<^verbatim>\<open>rx_buffer[i]\<close> for \<open>i \<ge> 50\<close> is outside the array.
\<close>

function rx_dump :: "8 word \<Rightarrow> 16 word \<Rightarrow> 8 word list \<Rightarrow> state \<Rightarrow> fault + state" where
  "rx_dump i retcode rx_buffer st =
    (if uint i < sint retcode then
       (if unat i < 50
        then rx_dump (i + 1) retcode rx_buffer (printf (RX_byte (rx_buffer ! unat i)) st)
        else Inl Buffer_overrun)
     else Inr st)"
  by pat_completeness auto
termination
proof (relation "measure (\<lambda>(i, retcode, rx_buffer, st). 50 - unat i)")
  show "wf (measure (\<lambda>(i :: 8 word, retcode :: 16 word, rx_buffer :: 8 word list, st :: state). 50 - unat i))"
    by simp
next
  fix i :: "8 word" and retcode :: "16 word" and rx_buffer :: "8 word list" and st :: state
  assume "unat i < 50"
  then have "unat (i + 1) = unat i + 1"
    by (simp add: unat_word_ariths)
  with \<open>unat i < 50\<close>
  show "((i + 1, retcode, rx_buffer, printf (RX_byte (rx_buffer ! unat i)) st), (i, retcode, rx_buffer, st))
        \<in> measure (\<lambda>(i, retcode, rx_buffer, st). 50 - unat i)"
    by simp
qed

declare rx_dump.simps [simp del]

definition receive_message :: "world \<Rightarrow> state \<Rightarrow> fault + state" where
  "receive_message w st0 =
    (let (retcode, stored) = receive_ret w (receives st0) 50;
         rx_buffer = rx_buffer_after stored;
         st1 = st0\<lparr>receives := receives st0 + 1\<rparr>
     in if sint retcode < 0 then Inr (printf (Receive_error_code (sint retcode)) st1)
        else (case rx_dump 0 retcode rx_buffer (printf (RX_Data (sint retcode)) st1) of
                Inl f \<Rightarrow> Inl f
              | Inr st2 \<Rightarrow> Inr (printf RX_newline st2)))"

subsection \<open>\<^verbatim>\<open>lora_event_handler\<close>\<close>

fun lora_event_handler :: "world \<Rightarrow> lorawan_event_t \<Rightarrow> state \<Rightarrow> fault + state" where
  "lora_event_handler w CONNECTED st =
     Inr (call_in TX_INTERVAL Send_message (printf Connection_successful st))"
| "lora_event_handler w DISCONNECTED st =
     Inr (printf Disconnected_successfully (break_dispatch st))"
| "lora_event_handler w TX_DONE st = Inr (printf Message_sent st)"
| "lora_event_handler w TX_TIMEOUT st = Inr (printf (Transmission_error TX_TIMEOUT) st)"
| "lora_event_handler w TX_ERROR st = Inr (printf (Transmission_error TX_ERROR) st)"
| "lora_event_handler w TX_CRYPTO_ERROR st =
     Inr (printf (Transmission_error TX_CRYPTO_ERROR) st)"
| "lora_event_handler w TX_SCHEDULING_ERROR st =
     Inr (printf (Transmission_error TX_SCHEDULING_ERROR) st)"
| "lora_event_handler w RX_DONE st = receive_message w (printf Received_message st)"
| "lora_event_handler w RX_TIMEOUT st = Inr (printf (Reception_error RX_TIMEOUT) st)"
| "lora_event_handler w RX_ERROR st = Inr (printf (Reception_error RX_ERROR) st)"
| "lora_event_handler w JOIN_FAILURE st = Inr (printf OTAA_failed st)"
| "lora_event_handler w UPLINK_REQUIRED st = Inr (send_message w (printf Uplink_required st))"
| "lora_event_handler w (OTHER_EVENT n) st =
     MBED_ASSERT (literal_as_condition ''Unknown Event'') st"

text \<open>The handler invoked once for each event of a list, in immediate succession.\<close>

fun handle_all :: "world \<Rightarrow> lorawan_event_t list \<Rightarrow> state \<Rightarrow> fault + state" where
  "handle_all w [] st = Inr st"
| "handle_all w (e # es) st =
     (case lora_event_handler w e st of
        Inl f \<Rightarrow> Inl f
      | Inr st' \<Rightarrow> handle_all w es st')"

subsection \<open>The run loop\<close>

text \<open>
  What wakes the run loop: a timer of the queue comes due, or the stack posts an event
  at some time, which the queue hands to the registered \<^verbatim>\<open>lora_event_handler\<close>.
\<close>

datatype wakeup = Timer_expiry | Posted nat lorawan_event_t

text \<open>
  The pending callback that is due first (the one posted first among equals), and the
  queue without it.
\<close>

fun take_earliest :: "(nat \<times> callback) list \<Rightarrow> ((nat \<times> callback) \<times> (nat \<times> callback) list) option" where
  "take_earliest [] = None"
| "take_earliest (x # xs) =
     (case take_earliest xs of
        None \<Rightarrow> Some (x, [])
      | Some (y, ys) \<Rightarrow> if fst x \<le> fst y then Some (x, xs) else Some (y, x # ys))"

definition run_callback :: "world \<Rightarrow> callback \<Rightarrow> state \<Rightarrow> fault + state" where
  "run_callback w cb st = (case cb of Send_message \<Rightarrow> Inr (send_message w st))"

text \<open>
  One turn of the loop. A timer's callback runs once, at its due time or later, and is
  removed from the queue before it runs; a wake-up with no timer pending does nothing.
\<close>

fun wake :: "world \<Rightarrow> wakeup \<Rightarrow> state \<Rightarrow> fault + state" where
  "wake w Timer_expiry st =
     (case take_earliest (pending st) of
        None \<Rightarrow> Inr st
      | Some ((due, cb), rest) \<Rightarrow>
          run_callback w cb (st\<lparr>tick := max (tick st) due, pending := rest\<rparr>))"
| "wake w (Posted t ev) st = lora_event_handler w ev (st\<lparr>tick := max (tick st) t\<rparr>)"

datatype dispatch = Returned state | Still_dispatching state | Dispatch_aborted fault

text \<open>
  Modelled from the spec: \<^verbatim>\<open>EventQueue::dispatch_forever\<close> is library code that is not
  under \<^verbatim>\<open>src/\<close>. Section 4.2: it blocks the calling thread, repeatedly waiting for the
  next timer expiry or externally posted event and invoking its callback inline;
  callbacks run to completion; \<^verbatim>\<open>stop()\<close> makes it return once the currently running
  callback completes. The list is the sequence of wake-ups observed so far; when it is
  used up with no stop requested the loop is still waiting.
\<close>

fun dispatch_forever :: "world \<Rightarrow> wakeup list \<Rightarrow> state \<Rightarrow> dispatch" where
  "dispatch_forever w [] st = Still_dispatching st"
| "dispatch_forever w (u # us) st =
     (case wake w u st of
        Inl f \<Rightarrow> Dispatch_aborted f
      | Inr st' \<Rightarrow> if break_requested st' then Returned st' else dispatch_forever w us st')"

subsection \<open>\<^verbatim>\<open>main\<close>\<close>

datatype process = Exit int state | Running state | Abort fault

definition initial_state :: state where
  "initial_state =
     \<lparr>tick = 0, pending = [], break_requested = False, out = [], sends = 0, receives = 0\<rparr>"

text \<open>
  \<^verbatim>\<open>main\<close> returns \<open>-1\<close> at each failed check; when \<^verbatim>\<open>dispatch_forever\<close> returns, control
  reaches the end of \<^verbatim>\<open>main\<close>, which is \<^verbatim>\<open>return 0\<close>. The value of
  \<^verbatim>\<open>lorawan.add_app_callbacks\<close> is not used by the source.
\<close>

definition main :: "world \<Rightarrow> wakeup list \<Rightarrow> process" where
  "main w us =
    (if initialize_ret w \<noteq> LORAWAN_STATUS_OK
     then Exit (- 1) (printf LoRa_initialization_failed initial_state)
     else
       let st1 = printf Stack_initialized initial_state in
       if set_confirmed_msg_retries_ret w \<noteq> LORAWAN_STATUS_OK
       then Exit (- 1) (printf Set_confirmed_msg_retries_failed st1)
       else if disable_adaptive_datarate_ret w \<noteq> LORAWAN_STATUS_OK
       then Exit (- 1) (printf Disable_adaptive_datarate_failed st1)
       else
         let st2 = printf ADR_disabled st1;
             retcode = connect_ret w
         in if retcode = LORAWAN_STATUS_OK \<or> retcode = LORAWAN_STATUS_CONNECT_IN_PROGRESS
            then (case dispatch_forever w us (printf Connection_in_progress st2) of
                    Returned st \<Rightarrow> Exit 0 st
                  | Still_dispatching st \<Rightarrow> Running st
                  | Dispatch_aborted f \<Rightarrow> Abort f)
            else Exit (- 1) (printf (Connection_error retcode) st2))"

subsection \<open>Concrete environments\<close>

text \<open>
  A stack that accepts every startup call; its first send is accepted with 12 bytes, the
  second is refused for duty cycle, the third fails otherwise, and later ones are accepted;
  every receive delivers the two bytes \<open>01 02\<close>.
\<close>

definition bench_world :: world where
  "bench_world =
     \<lparr>WOULD_BLOCK = - 1001,
      initialize_ret = LORAWAN_STATUS_OK,
      add_app_callbacks_ret = LORAWAN_STATUS_OK,
      set_confirmed_msg_retries_ret = LORAWAN_STATUS_OK,
      disable_adaptive_datarate_ret = LORAWAN_STATUS_OK,
      connect_ret = LORAWAN_STATUS_CONNECT_IN_PROGRESS,
      get_temperature = (\<lambda>k. 0x41AC0000),
      send_ret = (\<lambda>k. if k = 0 then 12 else if k = 1 then - 1001 else if k = 2 then - 1005 else 12),
      receive_ret = (\<lambda>k len. (2, [1, 2]))\<rparr>"

text \<open>The same stack, except that registering the callbacks reports a failure.\<close>

definition unregistered_world :: world where
  "unregistered_world = bench_world\<lparr>add_app_callbacks_ret := LORAWAN_STATUS_OTHER (- 1003)\<rparr>"

section \<open>Properties\<close>

subsection \<open>What \<^verbatim>\<open>send_message\<close> does to each part of the state\<close>

lemma send_message_pending:
  "pending (send_message w st) =
     pending st @
       [(tick st + (if sint (send_ret w (sends st)) < 0 \<and> sint (send_ret w (sends st)) = WOULD_BLOCK w
                    then 3000 else TX_INTERVAL), Send_message)]"
  by (simp add: send_message_def Let_def printf_def call_in_def)

lemma send_message_out:
  "out (send_message w st) =
     out st @
       [Temperature_is (get_temperature w (sends st)),
        (if sint (send_ret w (sends st)) < 0
         then (if sint (send_ret w (sends st)) = WOULD_BLOCK w
               then Duty_cycle_violation
               else Send_error_code (sint (send_ret w (sends st))))
         else Bytes_scheduled (sint (send_ret w (sends st))))]"
  by (simp add: send_message_def Let_def printf_def call_in_def)

lemma send_message_frame:
  "sends (send_message w st) = sends st + 1"
  "tick (send_message w st) = tick st"
  "break_requested (send_message w st) = break_requested st"
  "receives (send_message w st) = receives st"
  by (simp_all add: send_message_def Let_def printf_def call_in_def)

lemma printf_frame:
  "pending (printf l st) = pending st"
  "tick (printf l st) = tick st"
  "break_requested (printf l st) = break_requested st"
  "sends (printf l st) = sends st"
  "receives (printf l st) = receives st"
  "out (printf l st) = out st @ [l]"
  by (simp_all add: printf_def)

subsection \<open>Rescheduling after a send\<close>

text \<open>
  C2. A send that fails (negative return) re-arms \<^verbatim>\<open>send_message\<close> exactly once. When the
  code is the would-block status the new timer is due 3000 ms from now and the duty-cycle
  line is printed; for any other negative code it is due 10000 ms from now and the error
  line carries the code. Nothing else of the state changes but the count of sends, and
  3000 ms is strictly less than the uplink interval.
\<close>

theorem send_message_failure_policy:
  assumes "sint (send_ret w (sends st)) < 0"
  shows "(sint (send_ret w (sends st)) = WOULD_BLOCK w \<longrightarrow>
            send_message w st =
              st\<lparr>pending := pending st @ [(tick st + 3000, Send_message)],
                 out := out st @ [Temperature_is (get_temperature w (sends st)), Duty_cycle_violation],
                 sends := sends st + 1\<rparr>)
       \<and> (sint (send_ret w (sends st)) \<noteq> WOULD_BLOCK w \<longrightarrow>
            send_message w st =
              st\<lparr>pending := pending st @ [(tick st + 10000, Send_message)],
                 out := out st @ [Temperature_is (get_temperature w (sends st)),
                                  Send_error_code (sint (send_ret w (sends st)))],
                 sends := sends st + 1\<rparr>)
       \<and> (3000 :: nat) < TX_INTERVAL"
  using assms
  by (simp add: send_message_def Let_def printf_def call_in_def TX_INTERVAL_def)

theorem send_message_failure_policy_witness:
  "sint (send_ret bench_world (sends (initial_state\<lparr>sends := 1\<rparr>))) < 0
   \<and> sint (send_ret bench_world (sends (initial_state\<lparr>sends := 2\<rparr>))) < 0
   \<and> send_message bench_world (initial_state\<lparr>sends := 1\<rparr>) =
       \<lparr>tick = 0, pending = [(3000, Send_message)], break_requested = False,
        out = [Temperature_is 0x41AC0000, Duty_cycle_violation], sends = 2, receives = 0\<rparr>
   \<and> send_message bench_world (initial_state\<lparr>sends := 2\<rparr>) =
       \<lparr>tick = 0, pending = [(10000, Send_message)], break_requested = False,
        out = [Temperature_is 0x41AC0000, Send_error_code (- 1005)], sends = 3, receives = 0\<rparr>"
  using send_message_failure_policy [of bench_world "initial_state\<lparr>sends := 1\<rparr>"]
        send_message_failure_policy [of bench_world "initial_state\<lparr>sends := 2\<rparr>"]
  by (simp add: bench_world_def initial_state_def)

text \<open>
  C3. On \<open>CONNECTED\<close> the handler posts \<^verbatim>\<open>send_message\<close> to run 10000 ms from now, and a
  send that succeeds (non-negative return) posts the next one 10000 ms from now and prints
  the line with the byte count that \<^verbatim>\<open>lorawan.send\<close> returned.
\<close>

theorem connected_and_success_schedule_interval:
  "lora_event_handler w CONNECTED st =
     Inr (st\<lparr>pending := pending st @ [(tick st + 10000, Send_message)],
             out := out st @ [Connection_successful]\<rparr>)
   \<and> (0 \<le> sint (send_ret w (sends st)) \<longrightarrow>
        send_message w st =
          st\<lparr>pending := pending st @ [(tick st + 10000, Send_message)],
             out := out st @ [Temperature_is (get_temperature w (sends st)),
                              Bytes_scheduled (sint (send_ret w (sends st)))],
             sends := sends st + 1\<rparr>)
   \<and> TX_INTERVAL = 10000"
  by (simp add: send_message_def Let_def printf_def call_in_def TX_INTERVAL_def)

theorem connected_and_success_schedule_interval_witness:
  "0 \<le> sint (send_ret bench_world (sends initial_state))
   \<and> lora_event_handler bench_world CONNECTED initial_state =
       Inr \<lparr>tick = 0, pending = [(10000, Send_message)], break_requested = False,
            out = [Connection_successful], sends = 0, receives = 0\<rparr>
   \<and> send_message bench_world initial_state =
       \<lparr>tick = 0, pending = [(10000, Send_message)], break_requested = False,
        out = [Temperature_is 0x41AC0000, Bytes_scheduled 12], sends = 1, receives = 0\<rparr>"
  using connected_and_success_schedule_interval [of bench_world initial_state]
  by (simp add: bench_world_def initial_state_def)

subsection \<open>Receiving\<close>

lemma rx_dump_frame:
  "rx_dump i retcode rx_buffer st = Inr st' \<Longrightarrow>
     pending st' = pending st \<and> tick st' = tick st \<and> break_requested st' = break_requested st
     \<and> sends st' = sends st \<and> receives st' = receives st"
proof (induction i retcode rx_buffer st rule: rx_dump.induct)
  case (1 i retcode rx_buffer st)
  show ?case
  proof (cases "uint i < sint retcode")
    case False
    with "1.prems" show ?thesis by (simp add: rx_dump.simps [of i])
  next
    case True
    show ?thesis
    proof (cases "unat i < 50")
      case False
      with True "1.prems" show ?thesis by (simp add: rx_dump.simps [of i])
    next
      case inb: True
      with True "1.prems"
      have "rx_dump (i + 1) retcode rx_buffer (printf (RX_byte (rx_buffer ! unat i)) st) = Inr st'"
        by (simp add: rx_dump.simps [of i])
      from "1.IH" [OF True inb this] show ?thesis
        by (simp add: printf_def)
    qed
  qed
qed

lemma rx_dump_prints:
  "sint retcode \<le> 50 \<Longrightarrow> uint i \<le> sint retcode \<Longrightarrow>
     rx_dump i retcode rx_buffer st =
       Inr (st\<lparr>out := out st @ map (\<lambda>j. RX_byte (rx_buffer ! j)) [unat i ..< nat (sint retcode)]\<rparr>)"
proof (induction i retcode rx_buffer st rule: rx_dump.induct)
  case (1 i retcode rx_buffer st)
  show ?case
  proof (cases "uint i < sint retcode")
    case False
    with "1.prems" have "uint i = sint retcode" by simp
    then have "int (unat i) = sint retcode" by (simp only: uint_nat)
    then have "nat (sint retcode) = unat i" by linarith
    with False show ?thesis by (simp add: rx_dump.simps [of i])
  next
    case True
    with "1.prems" have small: "uint i < 50" by simp
    then have "int (unat i) < 50" by (simp only: uint_nat)
    then have inb: "unat i < 50" by linarith
    then have next_i: "unat (i + 1) = unat i + 1"
      by (simp add: unat_word_ariths)
    have "uint (i + 1) = int (unat (i + 1))" by (rule uint_nat)
    also have "\<dots> = int (unat i) + 1" by (simp only: next_i of_nat_add of_nat_1)
    also have "\<dots> = uint i + 1" by (simp only: uint_nat)
    finally have "uint (i + 1) = uint i + 1" .
    with True have le: "uint (i + 1) \<le> sint retcode" by simp
    from True have "int (unat i) < sint retcode" by (simp only: uint_nat)
    then have lt: "unat i < nat (sint retcode)" by linarith
    have "rx_dump i retcode rx_buffer st =
            rx_dump (i + 1) retcode rx_buffer (printf (RX_byte (rx_buffer ! unat i)) st)"
      using True inb by (simp add: rx_dump.simps [of i])
    also have "\<dots> = Inr (printf (RX_byte (rx_buffer ! unat i)) st
                 \<lparr>out := out (printf (RX_byte (rx_buffer ! unat i)) st) @
                    map (\<lambda>j. RX_byte (rx_buffer ! j)) [unat (i + 1) ..< nat (sint retcode)]\<rparr>)"
      using "1.IH" [OF True inb "1.prems"(1) le] .
    also have "\<dots> = Inr (st\<lparr>out := out st @ map (\<lambda>j. RX_byte (rx_buffer ! j)) [unat i ..< nat (sint retcode)]\<rparr>)"
      using lt by (simp add: printf_def next_i upt_conv_Cons)
    finally show ?thesis .
  qed
qed

lemma length_rx_buffer_after: "length (rx_buffer_after stored) = 50"
  by (simp add: rx_buffer_after_def)

lemma rx_buffer_after_prefix:
  "length stored \<le> 50 \<Longrightarrow> take (length stored) (rx_buffer_after stored) = stored"
  by (simp add: rx_buffer_after_def)

lemma map_nth_upt_take: "n \<le> length xs \<Longrightarrow> map (\<lambda>j. f (xs ! j)) [0 ..< n] = map f (take n xs)"
proof -
  assume n: "n \<le> length xs"
  have "map (\<lambda>j. f (xs ! j)) [0 ..< n] = map (\<lambda>j. f (take n xs ! j)) [0 ..< length (take n xs)]"
    using n by simp
  also have "\<dots> = map f (map ((!) (take n xs)) [0 ..< length (take n xs)])"
    by (simp only: map_map comp_def)
  also have "\<dots> = map f (take n xs)"
    by (simp only: map_nth)
  finally show ?thesis .
qed

lemma receive_message_negative:
  "sint (fst (receive_ret w (receives st) 50)) < 0 \<Longrightarrow>
     receive_message w st =
       Inr (st\<lparr>out := out st @ [Receive_error_code (sint (fst (receive_ret w (receives st) 50)))],
               receives := receives st + 1\<rparr>)"
  by (cases "receive_ret w (receives st) 50") (simp add: receive_message_def Let_def printf_def)

lemma receive_message_data:
  assumes "0 \<le> sint (fst (receive_ret w (receives st) 50))"
    and "sint (fst (receive_ret w (receives st) 50)) \<le> 50"
  shows "receive_message w st =
       Inr (st\<lparr>out := out st @ [RX_Data (sint (fst (receive_ret w (receives st) 50)))] @
                  map RX_byte (take (nat (sint (fst (receive_ret w (receives st) 50))))
                                 (rx_buffer_after (snd (receive_ret w (receives st) 50)))) @ [RX_newline],
               receives := receives st + 1\<rparr>)"
proof -
  obtain retcode stored where r: "receive_ret w (receives st) 50 = (retcode, stored)"
    by (cases "receive_ret w (receives st) 50")
  let ?k = "nat (sint retcode)"
  let ?buf = "rx_buffer_after stored"
  let ?st1 = "printf (RX_Data (sint retcode)) (st\<lparr>receives := receives st + 1\<rparr>)"
  from assms r have k: "?k \<le> length ?buf"
    by (simp add: length_rx_buffer_after)
  have bytes: "map (\<lambda>j. RX_byte (?buf ! j)) [0 ..< ?k] = map RX_byte (take ?k ?buf)"
    using k by (rule map_nth_upt_take)
  have "rx_dump 0 retcode ?buf ?st1 =
          Inr (?st1\<lparr>out := out ?st1 @ map (\<lambda>j. RX_byte (?buf ! j)) [unat (0 :: 8 word) ..< ?k]\<rparr>)"
    using assms r by (intro rx_dump_prints) simp_all
  then have "rx_dump 0 retcode ?buf ?st1 = Inr (?st1\<lparr>out := out ?st1 @ map RX_byte (take ?k ?buf)\<rparr>)"
    using bytes by simp
  then show ?thesis
    using assms r by (simp add: receive_message_def Let_def printf_def)
qed

text \<open>
  A count above 50, which a read into a buffer of 50 bytes does not return, would take the
  loop past the end of \<^verbatim>\<open>rx_buffer\<close>.
\<close>

lemma rx_dump_overrun:
  "50 < sint retcode \<Longrightarrow> unat i \<le> 50 \<Longrightarrow> rx_dump i retcode rx_buffer st = Inl Buffer_overrun"
proof (induction i retcode rx_buffer st rule: rx_dump.induct)
  case (1 i retcode rx_buffer st)
  from "1.prems" have "int (unat i) < sint retcode" by linarith
  then have lt: "uint i < sint retcode" by (simp only: uint_nat)
  show ?case
  proof (cases "unat i < 50")
    case False
    with lt show ?thesis by (simp add: rx_dump.simps [of i])
  next
    case True
    then have "unat (i + 1) = unat i + 1"
      by (simp add: unat_word_ariths)
    with True have "unat (i + 1) \<le> 50" by simp
    from "1.IH" [OF lt True "1.prems"(1) this] lt True show ?thesis
      by (simp add: rx_dump.simps [of i])
  qed
qed

lemma receive_message_overrun:
  "50 < sint (fst (receive_ret w (receives st) 50)) \<Longrightarrow> receive_message w st = Inl Buffer_overrun"
  by (cases "receive_ret w (receives st) 50")
     (simp add: receive_message_def Let_def rx_dump_overrun)

lemma receive_message_same_call:
  fixes w w' :: world
  shows "receive_ret w' (receives st) 50 = receive_ret w (receives st) 50 \<Longrightarrow>
     receive_message w' st = receive_message w st"
  by (simp add: receive_message_def)

text \<open>
  C8. On \<open>RX_DONE\<close> the handler prints its line and makes one call of \<^verbatim>\<open>lorawan.receive\<close>,
  asking for the 50 bytes of \<^verbatim>\<open>rx_buffer\<close>: what it does depends on the stack only through
  the answer to that request. When the answer is a count \<open>k\<close> with \<open>0 \<le> k \<le> 50\<close>, the
  lines printed are the header with \<open>k\<close>, the first \<open>k\<close> bytes of the buffer (the bytes the
  stack stored, when it stored \<open>k\<close> of them) and the line end. When it is a negative code,
  the error line with that code is printed and nothing else happens: no timer is posted
  and no second read is made. The source does not clamp a count above 50.
\<close>

theorem rx_done_reports:
  assumes "receive_ret w (receives st) 50 = (retcode, stored)"
  shows "(0 \<le> sint retcode \<and> sint retcode \<le> 50 \<longrightarrow>
            lora_event_handler w RX_DONE st =
              Inr (st\<lparr>out := out st @ [Received_message, RX_Data (sint retcode)] @
                         map RX_byte (take (nat (sint retcode)) (rx_buffer_after stored)) @ [RX_newline],
                      receives := receives st + 1\<rparr>))
       \<and> (0 \<le> sint retcode \<and> sint retcode \<le> 50 \<and> length stored = nat (sint retcode) \<longrightarrow>
            lora_event_handler w RX_DONE st =
              Inr (st\<lparr>out := out st @ [Received_message, RX_Data (sint retcode)] @
                         map RX_byte stored @ [RX_newline],
                      receives := receives st + 1\<rparr>))
       \<and> (sint retcode < 0 \<longrightarrow>
            lora_event_handler w RX_DONE st =
              Inr (st\<lparr>out := out st @ [Received_message, Receive_error_code (sint retcode)],
                      receives := receives st + 1\<rparr>))
       \<and> (\<forall>w' :: world. receive_ret w' (receives st) 50 = receive_ret w (receives st) 50 \<longrightarrow>
              lora_event_handler w' RX_DONE st = lora_event_handler w RX_DONE st)
       \<and> length (rx_buffer_after stored) = 50"
proof -
  let ?st = "printf Received_message st"
  have call: "receive_ret w (receives ?st) 50 = (retcode, stored)"
    using assms by (simp add: printf_frame)
  have h: "lora_event_handler w RX_DONE st = receive_message w ?st"
    by simp
  show ?thesis
  proof (intro conjI impI allI)
    assume k: "0 \<le> sint retcode \<and> sint retcode \<le> 50"
    with call receive_message_data [of w ?st]
    show "lora_event_handler w RX_DONE st =
            Inr (st\<lparr>out := out st @ [Received_message, RX_Data (sint retcode)] @
                       map RX_byte (take (nat (sint retcode)) (rx_buffer_after stored)) @ [RX_newline],
                    receives := receives st + 1\<rparr>)"
      by (simp add: printf_def)
  next
    assume k: "0 \<le> sint retcode \<and> sint retcode \<le> 50 \<and> length stored = nat (sint retcode)"
    then have "length stored \<le> 50" by linarith
    then have "take (length stored) (rx_buffer_after stored) = stored"
      by (rule rx_buffer_after_prefix)
    with k call receive_message_data [of w ?st]
    show "lora_event_handler w RX_DONE st =
            Inr (st\<lparr>out := out st @ [Received_message, RX_Data (sint retcode)] @
                       map RX_byte stored @ [RX_newline],
                    receives := receives st + 1\<rparr>)"
      by (simp add: printf_def)
  next
    assume "sint retcode < 0"
    with call receive_message_negative [of w ?st]
    show "lora_event_handler w RX_DONE st =
            Inr (st\<lparr>out := out st @ [Received_message, Receive_error_code (sint retcode)],
                    receives := receives st + 1\<rparr>)"
      by (simp add: printf_def)
  next
    fix w' :: world
    assume "receive_ret w' (receives st) 50 = receive_ret w (receives st) 50"
    then have "receive_message w' ?st = receive_message w ?st"
      by (intro receive_message_same_call) (simp add: printf_frame)
    then show "lora_event_handler w' RX_DONE st = lora_event_handler w RX_DONE st"
      by simp
  next
    show "length (rx_buffer_after stored) = 50"
      by (rule length_rx_buffer_after)
  qed
qed

theorem rx_done_reports_witness:
  "receive_ret bench_world (receives initial_state) 50 = (2, [1, 2])
   \<and> lora_event_handler bench_world RX_DONE initial_state =
       Inr \<lparr>tick = 0, pending = [], break_requested = False,
            out = [Received_message, RX_Data 2, RX_byte 1, RX_byte 2, RX_newline],
            sends = 0, receives = 1\<rparr>
   \<and> receive_ret (bench_world\<lparr>receive_ret := \<lambda>k len. (- 1010, [])\<rparr>) (receives initial_state) 50 = (- 1010, [])
   \<and> lora_event_handler (bench_world\<lparr>receive_ret := \<lambda>k len. (- 1010, [])\<rparr>) RX_DONE initial_state =
       Inr \<lparr>tick = 0, pending = [], break_requested = False,
            out = [Received_message, Receive_error_code (- 1010)], sends = 0, receives = 1\<rparr>"
proof -
  have a: "receive_ret bench_world (receives initial_state) 50 = (2, [1, 2])"
    by (simp add: bench_world_def)
  have b: "receive_ret (bench_world\<lparr>receive_ret := \<lambda>k len. (- 1010, [])\<rparr>) (receives initial_state) 50
             = (- 1010, [])"
    by simp
  from rx_done_reports [OF a] rx_done_reports [OF b] a b show ?thesis
    by (simp add: initial_state_def rx_buffer_after_def)
qed

text \<open>
  C10. When \<^verbatim>\<open>lorawan.receive\<close> returns a negative code, \<^verbatim>\<open>receive_message\<close> returns
  normally after printing the error line: the pending timers, the clock, the break
  request and the number of sends are what they were, and exactly one receive call was
  made.
\<close>

theorem receive_failure_changes_nothing_else:
  assumes "sint (fst (receive_ret w (receives st) 50)) < 0"
  shows "\<exists>st'. receive_message w st = Inr st'
           \<and> pending st' = pending st \<and> tick st' = tick st
           \<and> break_requested st' = break_requested st \<and> sends st' = sends st
           \<and> receives st' = receives st + 1
           \<and> out st' = out st @ [Receive_error_code (sint (fst (receive_ret w (receives st) 50)))]"
  using receive_message_negative [OF assms] by simp

theorem receive_failure_changes_nothing_else_witness:
  "sint (fst (receive_ret (bench_world\<lparr>receive_ret := \<lambda>k len. (- 1010, [])\<rparr>)
            (receives (call_in TX_INTERVAL Send_message initial_state)) 50)) < 0
   \<and> receive_message (bench_world\<lparr>receive_ret := \<lambda>k len. (- 1010, [])\<rparr>)
        (call_in TX_INTERVAL Send_message initial_state) =
       Inr \<lparr>tick = 0, pending = [(10000, Send_message)], break_requested = False,
            out = [Receive_error_code (- 1010)], sends = 0, receives = 1\<rparr>"
  using receive_failure_changes_nothing_else
          [of "bench_world\<lparr>receive_ret := \<lambda>k len. (- 1010, [])\<rparr>" "call_in TX_INTERVAL Send_message initial_state"]
  by (auto simp add: bench_world_def initial_state_def call_in_def TX_INTERVAL_def)

subsection \<open>The handler\<close>

text \<open>
  C5. For an event value outside the twelve known ones, the \<^verbatim>\<open>default\<close> branch asserts a
  string literal, which is true: the handler returns normally with the state unchanged,
  for every such value and every state. No assertion failure is raised.
\<close>

theorem unknown_event_assertion_never_fires:
  "lora_event_handler w (OTHER_EVENT n) st = Inr st"
  by (simp add: MBED_ASSERT_def literal_as_condition_def)

text \<open>
  C1, as stated, fails: after \<open>CONNECTED\<close> and then \<open>UPLINK_REQUIRED\<close>, handled one after
  the other from the initial state, two \<^verbatim>\<open>send_message\<close> timers are pending.
\<close>

theorem two_send_timers_pending:
  "handle_all bench_world [CONNECTED, UPLINK_REQUIRED] initial_state =
     Inr \<lparr>tick = 0, pending = [(10000, Send_message), (10000, Send_message)],
          break_requested = False,
          out = [Connection_successful, Uplink_required, Temperature_is 0x41AC0000, Bytes_scheduled 12],
          sends = 1, receives = 0\<rparr>
   \<and> (case handle_all bench_world [CONNECTED, UPLINK_REQUIRED] initial_state of
         Inl f \<Rightarrow> 0 | Inr st \<Rightarrow> length (pending st)) = 2"
  by (simp add: bench_world_def initial_state_def send_message_def Let_def printf_def call_in_def
      TX_INTERVAL_def)

text \<open>
  C1, amended. Scheduling a send adds a timer and cancels none: every execution of
  \<^verbatim>\<open>send_message\<close>, the \<open>CONNECTED\<close> branch and the \<open>UPLINK_REQUIRED\<close> branch each leave
  all timers that were pending in place, in order, and append exactly one
  \<^verbatim>\<open>send_message\<close> timer, due 3000 ms or 10000 ms from now.
\<close>

theorem scheduling_appends_timer:
  "(\<exists>d. pending (send_message w st) = pending st @ [(tick st + d, Send_message)]
        \<and> (d = 3000 \<or> d = TX_INTERVAL))
   \<and> (\<exists>st'. lora_event_handler w CONNECTED st = Inr st'
        \<and> pending st' = pending st @ [(tick st + TX_INTERVAL, Send_message)])
   \<and> (\<exists>st' d. lora_event_handler w UPLINK_REQUIRED st = Inr st'
        \<and> pending st' = pending st @ [(tick st + d, Send_message)]
        \<and> (d = 3000 \<or> d = TX_INTERVAL))"
proof (intro conjI)
  show "\<exists>d. pending (send_message w st) = pending st @ [(tick st + d, Send_message)]
        \<and> (d = 3000 \<or> d = TX_INTERVAL)"
    by (simp add: send_message_pending)
  show "\<exists>st'. lora_event_handler w CONNECTED st = Inr st'
        \<and> pending st' = pending st @ [(tick st + TX_INTERVAL, Send_message)]"
    by (simp add: printf_def call_in_def)
  show "\<exists>st' d. lora_event_handler w UPLINK_REQUIRED st = Inr st'
        \<and> pending st' = pending st @ [(tick st + d, Send_message)]
        \<and> (d = 3000 \<or> d = TX_INTERVAL)"
    by (simp add: send_message_pending printf_def)
qed

theorem scheduling_appends_timer_witness:
  "pending (send_message bench_world (call_in 3000 Send_message initial_state)) =
     [(3000, Send_message), (10000, Send_message)]"
  using scheduling_appends_timer [of bench_world "call_in 3000 Send_message initial_state"]
  by (simp add: send_message_pending bench_world_def initial_state_def call_in_def TX_INTERVAL_def)

lemma uplink_required_step:
  "lora_event_handler w UPLINK_REQUIRED st = Inr (send_message w (printf Uplink_required st))"
  by simp

text \<open>
  C7. For every \<open>n\<close>, handling \<open>UPLINK_REQUIRED\<close> \<open>n\<close> times in immediate succession runs
  \<^verbatim>\<open>send_message\<close> exactly \<open>n\<close> times: \<open>n\<close> calls of \<^verbatim>\<open>lorawan.send\<close> are made and \<open>n\<close>
  timers are appended, none dropped or merged. The \<open>i\<close>-th of them follows the policy
  for the return code of the \<open>i\<close>-th send alone: 3000 ms and the duty-cycle line for
  would-block, 10000 ms and the error line for another negative code, 10000 ms and the
  byte count otherwise.
\<close>

theorem uplink_required_repeated:
  "\<exists>st'. handle_all w (replicate n UPLINK_REQUIRED) st = Inr st'
     \<and> sends st' = sends st + n
     \<and> pending st' =
         pending st @
           map (\<lambda>i. (tick st + (if sint (send_ret w (sends st + i)) < 0
                                   \<and> sint (send_ret w (sends st + i)) = WOULD_BLOCK w
                                then 3000 else TX_INTERVAL), Send_message)) [0 ..< n]
     \<and> out st' =
         out st @
           concat (map (\<lambda>i. [Uplink_required,
                              Temperature_is (get_temperature w (sends st + i)),
                              (if sint (send_ret w (sends st + i)) < 0
                               then (if sint (send_ret w (sends st + i)) = WOULD_BLOCK w
                                     then Duty_cycle_violation
                                     else Send_error_code (sint (send_ret w (sends st + i))))
                               else Bytes_scheduled (sint (send_ret w (sends st + i))))]) [0 ..< n])
     \<and> tick st' = tick st \<and> break_requested st' = break_requested st \<and> receives st' = receives st"
proof (induction n arbitrary: st)
  case 0
  show ?case by simp
next
  case (Suc n)
  let ?st1 = "send_message w (printf Uplink_required st)"
  from Suc.IH [of ?st1] obtain st' where
    run: "handle_all w (replicate n UPLINK_REQUIRED) ?st1 = Inr st'"
    and s: "sends st' = sends ?st1 + n"
    and p: "pending st' =
         pending ?st1 @
           map (\<lambda>i. (tick ?st1 + (if sint (send_ret w (sends ?st1 + i)) < 0
                                   \<and> sint (send_ret w (sends ?st1 + i)) = WOULD_BLOCK w
                                then 3000 else TX_INTERVAL), Send_message)) [0 ..< n]"
    and ou: "out st' =
         out ?st1 @
           concat (map (\<lambda>i. [Uplink_required,
                              Temperature_is (get_temperature w (sends ?st1 + i)),
                              (if sint (send_ret w (sends ?st1 + i)) < 0
                               then (if sint (send_ret w (sends ?st1 + i)) = WOULD_BLOCK w
                                     then Duty_cycle_violation
                                     else Send_error_code (sint (send_ret w (sends ?st1 + i))))
                               else Bytes_scheduled (sint (send_ret w (sends ?st1 + i))))]) [0 ..< n])"
    and fr: "tick st' = tick ?st1" "break_requested st' = break_requested ?st1"
            "receives st' = receives ?st1"
    by blast
  have "handle_all w (replicate (Suc n) UPLINK_REQUIRED) st = Inr st'"
    using run by simp
  moreover have "sends st' = sends st + Suc n"
    using s by (simp add: send_message_frame printf_frame)
  moreover have "pending st' =
         pending st @
           map (\<lambda>i. (tick st + (if sint (send_ret w (sends st + i)) < 0
                                   \<and> sint (send_ret w (sends st + i)) = WOULD_BLOCK w
                                then 3000 else TX_INTERVAL), Send_message)) [0 ..< Suc n]"
    unfolding p map_upt_Suc
    by (simp add: send_message_pending send_message_frame printf_frame cong: if_cong)
  moreover have "out st' =
         out st @
           concat (map (\<lambda>i. [Uplink_required,
                              Temperature_is (get_temperature w (sends st + i)),
                              (if sint (send_ret w (sends st + i)) < 0
                               then (if sint (send_ret w (sends st + i)) = WOULD_BLOCK w
                                     then Duty_cycle_violation
                                     else Send_error_code (sint (send_ret w (sends st + i))))
                               else Bytes_scheduled (sint (send_ret w (sends st + i))))]) [0 ..< Suc n])"
    unfolding ou map_upt_Suc
    by (simp add: send_message_out send_message_frame printf_frame cong: if_cong)
  moreover have "tick st' = tick st \<and> break_requested st' = break_requested st \<and> receives st' = receives st"
    using fr by (simp add: send_message_frame printf_frame)
  ultimately show ?case by blast
qed

theorem uplink_required_repeated_witness:
  "handle_all bench_world (replicate 3 UPLINK_REQUIRED) initial_state =
     Inr \<lparr>tick = 0,
          pending = [(10000, Send_message), (3000, Send_message), (10000, Send_message)],
          break_requested = False,
          out = [Uplink_required, Temperature_is 0x41AC0000, Bytes_scheduled 12,
                 Uplink_required, Temperature_is 0x41AC0000, Duty_cycle_violation,
                 Uplink_required, Temperature_is 0x41AC0000, Send_error_code (- 1005)],
          sends = 3, receives = 0\<rparr>"
  using uplink_required_repeated [of bench_world 3 initial_state]
  by (simp add: numeral_3_eq_3 bench_world_def initial_state_def send_message_def Let_def printf_def
      call_in_def TX_INTERVAL_def)

subsection \<open>The run loop and \<^verbatim>\<open>main\<close>\<close>

lemma take_earliest_None: "take_earliest xs = None \<longleftrightarrow> xs = []"
  by (cases xs) (auto split: option.splits)

lemma take_earliest_length:
  "take_earliest xs = Some (y, ys) \<Longrightarrow> Suc (length ys) = length xs"
  by (induction xs arbitrary: y ys) (auto simp add: take_earliest_None split: option.splits if_splits)

lemma receive_message_frame:
  assumes "receive_message w st = Inr st'"
  shows "pending st' = pending st \<and> tick st' = tick st
         \<and> break_requested st' = break_requested st \<and> sends st' = sends st"
proof -
  obtain retcode stored where r: "receive_ret w (receives st) 50 = (retcode, stored)"
    by (cases "receive_ret w (receives st) 50")
  show ?thesis
  proof (cases "sint retcode < 0")
    case True
    with assms r show ?thesis
      by (auto simp add: receive_message_def Let_def printf_def)
  next
    case False
    let ?st1 = "printf (RX_Data (sint retcode)) (st\<lparr>receives := receives st + 1\<rparr>)"
    from assms r False obtain st2 where
      d: "rx_dump 0 retcode (rx_buffer_after stored) ?st1 = Inr st2" and e: "st' = printf RX_newline st2"
      by (auto simp add: receive_message_def Let_def split: sum.splits)
    from rx_dump_frame [OF d] e show ?thesis
      by (simp add: printf_def)
  qed
qed

lemma lora_event_handler_frame:
  assumes "lora_event_handler w ev st = Inr st'"
  shows "length (pending st) \<le> length (pending st')"
    and "break_requested st' \<Longrightarrow> \<not> break_requested st \<Longrightarrow> ev = DISCONNECTED"
proof -
  have "length (pending st) \<le> length (pending st')
        \<and> (break_requested st' \<longrightarrow> \<not> break_requested st \<longrightarrow> ev = DISCONNECTED)"
  proof (cases ev)
    case RX_DONE
    with assms have "receive_message w (printf Received_message st) = Inr st'" by simp
    from receive_message_frame [OF this] RX_DONE show ?thesis
      by (simp add: printf_frame)
  next
    case UPLINK_REQUIRED
    with assms show ?thesis
      by (auto simp add: send_message_pending send_message_frame printf_frame)
  next
    case (OTHER_EVENT n)
    with assms show ?thesis
      by (auto simp add: MBED_ASSERT_def split: if_splits)
  qed (use assms in \<open>auto simp add: printf_def call_in_def break_dispatch_def\<close>)
  then show "length (pending st) \<le> length (pending st')"
    and "break_requested st' \<Longrightarrow> \<not> break_requested st \<Longrightarrow> ev = DISCONNECTED"
    by simp_all
qed

lemma wake_timer_rearms:
  assumes "pending st \<noteq> []"
  shows "\<exists>st'. wake w Timer_expiry st = Inr st' \<and> length (pending st') = length (pending st)
           \<and> sends st' = sends st + 1 \<and> break_requested st' = break_requested st"
proof -
  from assms obtain due cb rest where t: "take_earliest (pending st) = Some ((due, cb), rest)"
    using take_earliest_None [of "pending st"] by (cases "take_earliest (pending st)") auto
  from take_earliest_length [OF t] have "Suc (length rest) = length (pending st)" .
  with t show ?thesis
    by (cases cb) (simp add: run_callback_def send_message_pending send_message_frame)
qed

lemma wake_frame:
  assumes "wake w u st = Inr st'"
  shows "length (pending st) \<le> length (pending st')"
    and "break_requested st' \<Longrightarrow> \<not> break_requested st \<Longrightarrow> \<exists>t. u = Posted t DISCONNECTED"
proof -
  have "length (pending st) \<le> length (pending st')
        \<and> (break_requested st' \<longrightarrow> \<not> break_requested st \<longrightarrow> (\<exists>t. u = Posted t DISCONNECTED))"
  proof (cases u)
    case Timer_expiry
    show ?thesis
    proof (cases "pending st = []")
      case True
      with assms Timer_expiry show ?thesis by simp
    next
      case False
      from wake_timer_rearms [OF False, of w] assms Timer_expiry show ?thesis by auto
    qed
  next
    case (Posted t ev)
    with assms have h: "lora_event_handler w ev (st\<lparr>tick := max (tick st) t\<rparr>) = Inr st'" by simp
    from lora_event_handler_frame [OF h] Posted show ?thesis by auto
  qed
  then show "length (pending st) \<le> length (pending st')"
    and "break_requested st' \<Longrightarrow> \<not> break_requested st \<Longrightarrow> \<exists>t. u = Posted t DISCONNECTED"
    by simp_all
qed

lemma dispatch_forever_pending:
  "length (pending st) \<le>
     (case dispatch_forever w us st of
        Returned st' \<Rightarrow> length (pending st')
      | Still_dispatching st' \<Rightarrow> length (pending st')
      | Dispatch_aborted f \<Rightarrow> length (pending st))"
proof (induction us arbitrary: st)
  case Nil
  show ?case by simp
next
  case (Cons u us)
  show ?case
  proof (cases "wake w u st")
    case (Inl f)
    then show ?thesis by simp
  next
    case (Inr st1)
    from wake_frame(1) [OF Inr] have le: "length (pending st) \<le> length (pending st1)" .
    show ?thesis
    proof (cases "break_requested st1")
      case True
      with Inr le show ?thesis by simp
    next
      case False
      with Inr le Cons.IH [of st1] show ?thesis
        by (auto split: dispatch.splits)
    qed
  qed
qed

lemma dispatch_forever_returns_on_disconnect:
  "dispatch_forever w us st = Returned st' \<Longrightarrow> \<not> break_requested st \<Longrightarrow>
     \<exists>t. Posted t DISCONNECTED \<in> set us"
proof (induction us arbitrary: st)
  case Nil
  then show ?case by simp
next
  case (Cons u us)
  show ?case
  proof (cases "wake w u st")
    case (Inl f)
    with Cons.prems show ?thesis by simp
  next
    case (Inr st1)
    show ?thesis
    proof (cases "break_requested st1")
      case True
      from wake_frame(2) [OF Inr True Cons.prems(2)] show ?thesis by auto
    next
      case False
      with Inr Cons.prems have "dispatch_forever w us st1 = Returned st'" by simp
      from Cons.IH [OF this False] show ?thesis by auto
    qed
  qed
qed

lemma dispatch_forever_append:
  "dispatch_forever w (us @ vs) st =
     (case dispatch_forever w us st of
        Still_dispatching st' \<Rightarrow> dispatch_forever w vs st'
      | Returned st' \<Rightarrow> Returned st'
      | Dispatch_aborted f \<Rightarrow> Dispatch_aborted f)"
  by (induction us arbitrary: st) (auto split: sum.splits)

lemma dispatch_forever_disconnected:
  "dispatch_forever w (Posted t DISCONNECTED # us) st =
     Returned (st\<lparr>tick := max (tick st) t, break_requested := True,
                  out := out st @ [Disconnected_successfully]\<rparr>)"
  by (simp add: printf_def break_dispatch_def)

lemma dispatch_forever_after_disconnected:
  "dispatch_forever w (pre @ Posted t DISCONNECTED # us) st =
     dispatch_forever w (pre @ [Posted t DISCONNECTED]) st"
  "dispatch_forever w (pre @ Posted t DISCONNECTED # us) st \<noteq> Still_dispatching st'"
  by (simp_all only: dispatch_forever_append dispatch_forever_disconnected split: dispatch.splits)
     simp_all

text \<open>
  C6. On \<open>DISCONNECTED\<close> the handler requests the break and prints its line; it posts and
  cancels nothing. The run loop returns as soon as that callback is done, with the timers
  that were pending still pending and no further send made. Whatever wake-ups would
  follow (timer expiries or events) leave the result unchanged, so no callback runs
  after the stop request, and the loop is never still dispatching after such an event.
\<close>

theorem disconnected_stops_run_loop:
  "lora_event_handler w DISCONNECTED st =
     Inr (st\<lparr>break_requested := True, out := out st @ [Disconnected_successfully]\<rparr>)
   \<and> dispatch_forever w (Posted t DISCONNECTED # us) st =
       Returned (st\<lparr>tick := max (tick st) t, break_requested := True,
                    out := out st @ [Disconnected_successfully]\<rparr>)
   \<and> dispatch_forever w (pre @ Posted t DISCONNECTED # us) st =
       dispatch_forever w (pre @ [Posted t DISCONNECTED]) st
   \<and> (\<forall>st'. dispatch_forever w (pre @ Posted t DISCONNECTED # us) st \<noteq> Still_dispatching st')"
proof (intro conjI allI)
  show "lora_event_handler w DISCONNECTED st =
     Inr (st\<lparr>break_requested := True, out := out st @ [Disconnected_successfully]\<rparr>)"
    by (simp add: printf_def break_dispatch_def)
  show "dispatch_forever w (Posted t DISCONNECTED # us) st =
       Returned (st\<lparr>tick := max (tick st) t, break_requested := True,
                    out := out st @ [Disconnected_successfully]\<rparr>)"
    by (rule dispatch_forever_disconnected)
  show "dispatch_forever w (pre @ Posted t DISCONNECTED # us) st =
       dispatch_forever w (pre @ [Posted t DISCONNECTED]) st"
    by (rule dispatch_forever_after_disconnected(1))
  show "dispatch_forever w (pre @ Posted t DISCONNECTED # us) st \<noteq> Still_dispatching st'" for st'
    by (rule dispatch_forever_after_disconnected(2))
qed

theorem disconnected_stops_run_loop_witness:
  "dispatch_forever bench_world
     ([Posted 0 CONNECTED] @ Posted 5 DISCONNECTED # [Timer_expiry, Posted 9 UPLINK_REQUIRED])
     initial_state =
   Returned \<lparr>tick = 5, pending = [(10000, Send_message)], break_requested = True,
             out = [Connection_successful, Disconnected_successfully], sends = 0, receives = 0\<rparr>"
  using disconnected_stops_run_loop
          [of bench_world initial_state 5 "[Timer_expiry, Posted 9 UPLINK_REQUIRED]" "[Posted 0 CONNECTED]"]
  by (simp add: initial_state_def printf_def call_in_def break_dispatch_def TX_INTERVAL_def)

lemma receive_message_no_fault:
  assumes "sint (fst (receive_ret w (receives st) 50)) \<le> 50"
  shows "\<exists>st'. receive_message w st = Inr st'"
proof (cases "sint (fst (receive_ret w (receives st) 50)) < 0")
  case True
  from receive_message_negative [OF this] show ?thesis by blast
next
  case False
  then have "0 \<le> sint (fst (receive_ret w (receives st) 50))" by simp
  from receive_message_data [OF this assms] show ?thesis by blast
qed

lemma lora_event_handler_no_fault:
  assumes "\<forall>k. sint (fst (receive_ret w k 50)) \<le> 50"
  shows "\<exists>st'. lora_event_handler w ev st = Inr st'"
proof (cases ev)
  case RX_DONE
  from assms have "sint (fst (receive_ret w (receives (printf Received_message st)) 50)) \<le> 50"
    by blast
  from receive_message_no_fault [OF this] RX_DONE show ?thesis by simp
next
  case (OTHER_EVENT n)
  then show ?thesis by (simp add: MBED_ASSERT_def literal_as_condition_def)
qed simp_all

lemma wake_no_fault:
  assumes "\<forall>k. sint (fst (receive_ret w k 50)) \<le> 50"
  shows "\<exists>st'. wake w u st = Inr st'"
proof (cases u)
  case Timer_expiry
  then show ?thesis
    by (auto simp add: run_callback_def split: option.splits callback.splits)
next
  case (Posted t ev)
  with lora_event_handler_no_fault [OF assms] show ?thesis by simp
qed

lemma dispatch_forever_still:
  assumes "\<forall>k. sint (fst (receive_ret w k 50)) \<le> 50"
  shows "\<not> break_requested st \<Longrightarrow> \<forall>t. Posted t DISCONNECTED \<notin> set us \<Longrightarrow>
     \<exists>st'. dispatch_forever w us st = Still_dispatching st' \<and> \<not> break_requested st'"
proof (induction us arbitrary: st)
  case Nil
  then show ?case by simp
next
  case (Cons u us)
  from wake_no_fault [OF assms] obtain st1 where w1: "wake w u st = Inr st1" by blast
  have nb: "\<not> break_requested st1"
  proof
    assume "break_requested st1"
    from wake_frame(2) [OF w1 this Cons.prems(1)] Cons.prems(2) show False by auto
  qed
  from Cons.prems(2) have "\<forall>t. Posted t DISCONNECTED \<notin> set us" by simp
  from Cons.IH [OF nb this] w1 nb show ?case by simp
qed

text \<open>
  The checked startup steps and the run loop, for a stack whose reads never return more
  than the 50 bytes asked for. When stack initialization, the retry-count setting, the
  ADR setting or the connect request fails (the connect request succeeds with \<^verbatim>\<open>OK\<close> or
  \<^verbatim>\<open>CONNECT_IN_PROGRESS\<close>), \<^verbatim>\<open>main\<close> exits with code \<open>-1\<close> without entering the run loop:
  no wake-up is consumed, nothing is posted, sent or received. When they succeed, \<^verbatim>\<open>main\<close>
  is still in the run loop after any wake-ups with no \<open>DISCONNECTED\<close> among them, and exits
  with code 0 right after the handler of the first \<open>DISCONNECTED\<close>, whatever would follow.
\<close>

theorem main_checked_steps_and_run_loop:
  assumes "\<forall>k. sint (fst (receive_ret w k 50)) \<le> 50"
  shows "(initialize_ret w \<noteq> LORAWAN_STATUS_OK
      \<or> set_confirmed_msg_retries_ret w \<noteq> LORAWAN_STATUS_OK
      \<or> disable_adaptive_datarate_ret w \<noteq> LORAWAN_STATUS_OK
      \<or> (connect_ret w \<noteq> LORAWAN_STATUS_OK \<and> connect_ret w \<noteq> LORAWAN_STATUS_CONNECT_IN_PROGRESS)
    \<longrightarrow> (\<exists>st. main w us = Exit (- 1) st \<and> pending st = [] \<and> sends st = 0 \<and> receives st = 0)
        \<and> main w us = main w [])
   \<and> (initialize_ret w = LORAWAN_STATUS_OK
      \<and> set_confirmed_msg_retries_ret w = LORAWAN_STATUS_OK
      \<and> disable_adaptive_datarate_ret w = LORAWAN_STATUS_OK
      \<and> (connect_ret w = LORAWAN_STATUS_OK \<or> connect_ret w = LORAWAN_STATUS_CONNECT_IN_PROGRESS)
      \<and> (\<forall>t'. Posted t' DISCONNECTED \<notin> set pre)
    \<longrightarrow> (\<exists>st1. main w pre = Running st1
          \<and> main w (pre @ Posted t DISCONNECTED # post) =
              Exit 0 (st1\<lparr>tick := max (tick st1) t, break_requested := True,
                         out := out st1 @ [Disconnected_successfully]\<rparr>)))"
proof (intro conjI impI)
  assume "initialize_ret w \<noteq> LORAWAN_STATUS_OK
      \<or> set_confirmed_msg_retries_ret w \<noteq> LORAWAN_STATUS_OK
      \<or> disable_adaptive_datarate_ret w \<noteq> LORAWAN_STATUS_OK
      \<or> (connect_ret w \<noteq> LORAWAN_STATUS_OK \<and> connect_ret w \<noteq> LORAWAN_STATUS_CONNECT_IN_PROGRESS)"
  then show "\<exists>st. main w us = Exit (- 1) st \<and> pending st = [] \<and> sends st = 0 \<and> receives st = 0"
    and "main w us = main w []"
    by (auto simp add: main_def Let_def initial_state_def printf_def)
next
  assume ok: "initialize_ret w = LORAWAN_STATUS_OK
      \<and> set_confirmed_msg_retries_ret w = LORAWAN_STATUS_OK
      \<and> disable_adaptive_datarate_ret w = LORAWAN_STATUS_OK
      \<and> (connect_ret w = LORAWAN_STATUS_OK \<or> connect_ret w = LORAWAN_STATUS_CONNECT_IN_PROGRESS)
      \<and> (\<forall>t'. Posted t' DISCONNECTED \<notin> set pre)"
  let ?st0 = "initial_state\<lparr>out := [Stack_initialized, ADR_disabled, Connection_in_progress]\<rparr>"
  have m: "main w vs =
          (case dispatch_forever w vs ?st0 of
             Returned st \<Rightarrow> Exit 0 st
           | Still_dispatching st \<Rightarrow> Running st
           | Dispatch_aborted f \<Rightarrow> Abort f)" for vs
    using ok by (auto simp add: main_def Let_def initial_state_def printf_def)
  have nb: "\<not> break_requested ?st0"
    by (simp add: initial_state_def)
  from ok have "\<forall>t'. Posted t' DISCONNECTED \<notin> set pre" by simp
  from dispatch_forever_still [OF assms nb this]
  obtain st1 where d: "dispatch_forever w pre ?st0 = Still_dispatching st1" by blast
  have "main w pre = Running st1"
    by (simp add: m d)
  moreover have "main w (pre @ Posted t DISCONNECTED # post) =
              Exit 0 (st1\<lparr>tick := max (tick st1) t, break_requested := True,
                         out := out st1 @ [Disconnected_successfully]\<rparr>)"
    by (simp only: m dispatch_forever_append d dispatch.case dispatch_forever_disconnected)
  ultimately show "\<exists>st1. main w pre = Running st1
          \<and> main w (pre @ Posted t DISCONNECTED # post) =
              Exit 0 (st1\<lparr>tick := max (tick st1) t, break_requested := True,
                         out := out st1 @ [Disconnected_successfully]\<rparr>)"
    by blast
qed

theorem main_checked_steps_and_run_loop_witness:
  "main (bench_world\<lparr>connect_ret := LORAWAN_STATUS_OTHER (- 1)\<rparr>) [Posted 0 CONNECTED] =
     Exit (- 1) \<lparr>tick = 0, pending = [], break_requested = False,
                 out = [Stack_initialized, ADR_disabled, Connection_error (LORAWAN_STATUS_OTHER (- 1))],
                 sends = 0, receives = 0\<rparr>
   \<and> main bench_world [Posted 0 CONNECTED, Posted 3 TX_DONE] =
     Running \<lparr>tick = 3, pending = [(10000, Send_message)], break_requested = False,
              out = [Stack_initialized, ADR_disabled, Connection_in_progress, Connection_successful,
                     Message_sent],
              sends = 0, receives = 0\<rparr>
   \<and> main bench_world ([Posted 0 CONNECTED, Posted 3 TX_DONE] @ Posted 5 DISCONNECTED # [Timer_expiry]) =
     Exit 0 \<lparr>tick = 5, pending = [(10000, Send_message)], break_requested = True,
             out = [Stack_initialized, ADR_disabled, Connection_in_progress, Connection_successful,
                    Message_sent, Disconnected_successfully],
             sends = 0, receives = 0\<rparr>"
proof -
  have b2: "\<forall>k. sint (fst (receive_ret bench_world k 50)) \<le> 50"
    by (simp add: bench_world_def)
  have b1: "\<forall>k. sint (fst (receive_ret (bench_world\<lparr>connect_ret := LORAWAN_STATUS_OTHER (- 1)\<rparr>) k 50)) \<le> 50"
    by (simp add: bench_world_def)
  have ok: "initialize_ret bench_world = LORAWAN_STATUS_OK"
    "set_confirmed_msg_retries_ret bench_world = LORAWAN_STATUS_OK"
    "disable_adaptive_datarate_ret bench_world = LORAWAN_STATUS_OK"
    "connect_ret bench_world = LORAWAN_STATUS_CONNECT_IN_PROGRESS"
    by (simp_all add: bench_world_def)
  have e: "main (bench_world\<lparr>connect_ret := LORAWAN_STATUS_OTHER (- 1)\<rparr>) [Posted 0 CONNECTED] =
     Exit (- 1) \<lparr>tick = 0, pending = [], break_requested = False,
                 out = [Stack_initialized, ADR_disabled, Connection_error (LORAWAN_STATUS_OTHER (- 1))],
                 sends = 0, receives = 0\<rparr>"
    using main_checked_steps_and_run_loop [OF b1, of "[Posted 0 CONNECTED]"]
    by (simp add: bench_world_def main_def Let_def initial_state_def printf_def)
  have r: "main bench_world [Posted 0 CONNECTED, Posted 3 TX_DONE] =
     Running \<lparr>tick = 3, pending = [(10000, Send_message)], break_requested = False,
              out = [Stack_initialized, ADR_disabled, Connection_in_progress, Connection_successful,
                     Message_sent],
              sends = 0, receives = 0\<rparr>"
    by (simp add: bench_world_def main_def Let_def initial_state_def printf_def call_in_def
        TX_INTERVAL_def)
  from main_checked_steps_and_run_loop
         [OF b2, of "[]" "[Posted 0 CONNECTED, Posted 3 TX_DONE]" 5 "[Timer_expiry]"]
       ok r e
  show ?thesis
    by auto
qed

text \<open>
  C4. Callback registration is the one startup step whose result \<^verbatim>\<open>main\<close> does not test,
  while the steps before and after it are tested and return \<open>-1\<close>. With a stack whose
  \<^verbatim>\<open>add_app_callbacks\<close> reports a failure and whose other startup calls succeed, \<^verbatim>\<open>main\<close>
  does not exit: it goes on to the connect request and is in the run loop. For every
  stack and all wake-ups, what \<^verbatim>\<open>main\<close> does is the same whatever \<^verbatim>\<open>add_app_callbacks\<close>
  returns.
\<close>

theorem registration_failure_is_ignored:
  "add_app_callbacks_ret unregistered_world \<noteq> LORAWAN_STATUS_OK
   \<and> main unregistered_world [] =
       Running \<lparr>tick = 0, pending = [], break_requested = False,
                out = [Stack_initialized, ADR_disabled, Connection_in_progress],
                sends = 0, receives = 0\<rparr>
   \<and> main (w\<lparr>add_app_callbacks_ret := r\<rparr>) us = main w us"
proof (intro conjI)
  show "add_app_callbacks_ret unregistered_world \<noteq> LORAWAN_STATUS_OK"
    by (simp add: unregistered_world_def)
  show "main unregistered_world [] =
       Running \<lparr>tick = 0, pending = [], break_requested = False,
                out = [Stack_initialized, ADR_disabled, Connection_in_progress],
                sends = 0, receives = 0\<rparr>"
    by (simp add: unregistered_world_def bench_world_def main_def Let_def initial_state_def printf_def)
  have "dispatch_forever (w\<lparr>add_app_callbacks_ret := r\<rparr>) vs st = dispatch_forever w vs st" for vs st
  proof (induction vs arbitrary: st)
    case Nil
    show ?case by simp
  next
    case (Cons u vs)
    have h: "lora_event_handler (w\<lparr>add_app_callbacks_ret := r\<rparr>) ev s = lora_event_handler w ev s" for ev s
      by (cases ev) (simp_all add: send_message_def receive_message_def Let_def)
    have c: "run_callback (w\<lparr>add_app_callbacks_ret := r\<rparr>) cb s = run_callback w cb s" for cb s
      by (cases cb) (simp add: run_callback_def send_message_def Let_def)
    have "wake (w\<lparr>add_app_callbacks_ret := r\<rparr>) u st = wake w u st"
      by (cases u) (simp_all add: h c split: option.splits prod.splits)
    with Cons.IH show ?case by (simp split: sum.splits)
  qed
  then show "main (w\<lparr>add_app_callbacks_ret := r\<rparr>) us = main w us"
    by (simp add: main_def Let_def)
qed

text \<open>
  C9. Every execution of \<^verbatim>\<open>send_message\<close> appends exactly one \<^verbatim>\<open>send_message\<close> timer due
  strictly later than now, on each of its three paths (3000 ms after a would-block
  failure, 10000 ms after any other failure and after a success). Hence a timer that
  fires is replaced by one new timer, and once a send timer is pending one is pending
  after every sequence of wake-ups of the run loop: the chain does not end by itself.
\<close>

theorem send_message_always_rearms:
  "(\<exists>d. pending (send_message w st) = pending st @ [(tick st + d, Send_message)]
        \<and> 0 < d
        \<and> d = (if sint (send_ret w (sends st)) < 0 \<and> sint (send_ret w (sends st)) = WOULD_BLOCK w
               then 3000 else TX_INTERVAL))
   \<and> (pending st \<noteq> [] \<longrightarrow>
        (\<exists>st'. wake w Timer_expiry st = Inr st' \<and> length (pending st') = length (pending st)
               \<and> sends st' = sends st + 1))
   \<and> (pending st \<noteq> [] \<longrightarrow>
        (case dispatch_forever w us st of
           Returned st' \<Rightarrow> pending st' \<noteq> []
         | Still_dispatching st' \<Rightarrow> pending st' \<noteq> []
         | Dispatch_aborted f \<Rightarrow> True))"
proof (intro conjI impI)
  show "\<exists>d. pending (send_message w st) = pending st @ [(tick st + d, Send_message)]
        \<and> 0 < d
        \<and> d = (if sint (send_ret w (sends st)) < 0 \<and> sint (send_ret w (sends st)) = WOULD_BLOCK w
               then 3000 else TX_INTERVAL)"
    by (simp add: send_message_pending TX_INTERVAL_def)
next
  assume "pending st \<noteq> []"
  from wake_timer_rearms [OF this, of w]
  show "\<exists>st'. wake w Timer_expiry st = Inr st' \<and> length (pending st') = length (pending st)
               \<and> sends st' = sends st + 1"
    by blast
next
  assume "pending st \<noteq> []"
  with dispatch_forever_pending [of st w us]
  show "case dispatch_forever w us st of
           Returned st' \<Rightarrow> pending st' \<noteq> []
         | Still_dispatching st' \<Rightarrow> pending st' \<noteq> []
         | Dispatch_aborted f \<Rightarrow> True"
    by (cases "dispatch_forever w us st") auto
qed

theorem send_message_always_rearms_witness:
  "pending (call_in TX_INTERVAL Send_message initial_state) \<noteq> []
   \<and> dispatch_forever bench_world [Timer_expiry, Timer_expiry, Timer_expiry]
       (call_in TX_INTERVAL Send_message initial_state) =
     Still_dispatching
       \<lparr>tick = 23000, pending = [(33000, Send_message)], break_requested = False,
        out = [Temperature_is 0x41AC0000, Bytes_scheduled 12,
               Temperature_is 0x41AC0000, Duty_cycle_violation,
               Temperature_is 0x41AC0000, Send_error_code (- 1005)],
        sends = 3, receives = 0\<rparr>"
  using send_message_always_rearms
          [of bench_world "call_in TX_INTERVAL Send_message initial_state" "[Timer_expiry, Timer_expiry, Timer_expiry]"]
  by (simp add: bench_world_def initial_state_def run_callback_def send_message_def Let_def printf_def
      call_in_def TX_INTERVAL_def)

end
